theory Spec2Isabelle
  imports Main "HOL-Library.Sublist"
begin

section \<open>Path names: the functions of \<^verbatim>\<open>os.path\<close> the script calls\<close>

text \<open>
  The script is written for Windows: its roots are \<^verbatim>\<open>e:\...\<close> and \<^verbatim>\<open>c:\...\<close>, so
  \<^verbatim>\<open>os.path\<close> is \<^verbatim>\<open>ntpath\<close>. The definitions below follow \<^verbatim>\<open>ntpath.py\<close> of CPython 3.11
  on \<^verbatim>\<open>str\<close> arguments. A path name is a \<^typ>\<open>string\<close>; the backslash cannot be written inside
  a string literal, so it is the character \<open>sep\<close>.
\<close>

definition sep :: char where
  "sep = CHR 0x5C"

definition altsep :: char where
  "altsep = CHR ''/''"

definition colon :: char where
  "colon = CHR '':''"

definition curdir :: string where
  "curdir = ''.''"

text \<open>\<^verbatim>\<open>c in seps\<close>, for \<^verbatim>\<open>seps = '\\/'\<close>.\<close>

definition is_sep :: "char \<Rightarrow> bool" where
  "is_sep c \<longleftrightarrow> c = sep \<or> c = altsep"

text \<open>\<^verbatim>\<open>str.upper\<close> and \<^verbatim>\<open>str.lower\<close>, on the ASCII letters.\<close>

definition ascii_upper :: "char \<Rightarrow> char" where
  "ascii_upper c =
     (let n = (of_char c :: nat) in if 97 \<le> n \<and> n \<le> 122 then char_of (n - 32) else c)"

definition ascii_lower :: "char \<Rightarrow> char" where
  "ascii_lower c =
     (let n = (of_char c :: nat) in if 65 \<le> n \<and> n \<le> 90 then char_of (n + 32) else c)"

text \<open>\<^verbatim>\<open>s.find(c, start)\<close> for a single character: \<open>None\<close> is Python's \<^verbatim>\<open>-1\<close>.\<close>

definition str_find :: "string \<Rightarrow> char \<Rightarrow> nat \<Rightarrow> nat option" where
  "str_find s c start = List.find (\<lambda>i. s ! i = c) [start ..< length s]"

definition unc_prefix :: string where
  "unc_prefix = [sep, sep, CHR ''?'', sep] @ ''UNC'' @ [sep]"

definition splitdrive :: "string \<Rightarrow> string \<times> string" where
  "splitdrive p =
     (if 2 \<le> length p then
        (let normp = map (\<lambda>c. if c = altsep then sep else c) p in
         if take 2 normp = [sep, sep] then
           (let start = (if map ascii_upper (take 8 normp) = unc_prefix then 8 else 2) in
            case str_find normp sep start of
              None \<Rightarrow> (p, [])
            | Some index \<Rightarrow>
                (case str_find normp sep (index + 1) of
                   None \<Rightarrow> (p, [])
                 | Some index2 \<Rightarrow> (take index2 p, drop index2 p)))
         else if take 1 (drop 1 normp) = [colon] then (take 2 p, drop 2 p)
         else ([], p))
      else ([], p))"

text \<open>\<^verbatim>\<open>os.path.join(path, p)\<close>: the script always joins exactly two names.\<close>

definition os_path_join :: "string \<Rightarrow> string \<Rightarrow> string" where
  "os_path_join path p =
     (let (result_drive, result_path) = splitdrive path;
          (p_drive, p_path) = splitdrive p;
          (result_drive, result_path) =
            (if p_path \<noteq> [] \<and> is_sep (hd p_path) then
               ((if p_drive \<noteq> [] \<or> result_drive = [] then p_drive else result_drive), p_path)
             else if p_drive \<noteq> [] \<and> p_drive \<noteq> result_drive
                     \<and> map ascii_lower p_drive \<noteq> map ascii_lower result_drive then
               (p_drive, p_path)
             else
               ((if p_drive \<noteq> [] \<and> p_drive \<noteq> result_drive then p_drive else result_drive),
                (if result_path \<noteq> [] \<and> \<not> is_sep (last result_path)
                 then result_path @ [sep] else result_path) @ p_path))
      in if result_path \<noteq> [] \<and> \<not> is_sep (hd result_path)
            \<and> result_drive \<noteq> [] \<and> last result_drive \<noteq> colon
         then result_drive @ [sep] @ result_path
         else result_drive @ result_path)"

text \<open>
  \<^verbatim>\<open>os.path.split\<close>: the tail is what follows the last separator of the part after the
  drive; the head loses its trailing separators unless it consists of separators only.
\<close>

definition os_path_split :: "string \<Rightarrow> string \<times> string" where
  "os_path_split p0 =
     (let (d, p) = splitdrive p0;
          tail = rev (takeWhile (\<lambda>c. \<not> is_sep c) (rev p));
          head = rev (dropWhile (\<lambda>c. \<not> is_sep c) (rev p));
          stripped = rev (dropWhile is_sep (rev head))
      in (d @ (if stripped = [] then head else stripped), tail))"

definition os_path_dirname :: "string \<Rightarrow> string" where
  "os_path_dirname p = fst (os_path_split p)"

definition os_path_basename :: "string \<Rightarrow> string" where
  "os_path_basename p = snd (os_path_split p)"


section \<open>The file system and the standard output\<close>

text \<open>
  The script acts on the file system through \<^verbatim>\<open>os\<close> and \<^verbatim>\<open>shutil\<close> only. The file system is
  a map from path names to nodes. A name denotes the node stored under exactly that
  string: the model has no links, no case folding and no \<^verbatim>\<open>.\<close> or \<^verbatim>\<open>..\<close> resolution, and the
  empty name denotes nothing. A regular file has its bytes, its modification time and its
  permission bits; directories carry no metadata. A name whose directory part is empty
  lives in the current directory, which exists.
\<close>

datatype node = File (content: string) (mtime: int) (perm: nat) | Dir

record world =
  nodes :: "string \<rightharpoonup> node"
  clock :: int
  stdout :: "string list"

datatype error =
    FileNotFoundError
  | FileExistsError
  | NotADirectoryError
  | PermissionError
  | SameFileError

text \<open>
  A call either returns (\<open>Inr\<close>, with the world it leaves) or raises (\<open>Inl\<close>, with the
  exception and the world at the moment it is raised).
\<close>

type_synonym outcome = "(error \<times> world) + world"

definition os_stat :: "world \<Rightarrow> string \<Rightarrow> node option" where
  "os_stat w p = (if p = [] then None else nodes w p)"

definition os_path_exists :: "world \<Rightarrow> string \<Rightarrow> bool" where
  "os_path_exists w p \<longleftrightarrow> os_stat w p \<noteq> None"

definition os_path_isdir :: "world \<Rightarrow> string \<Rightarrow> bool" where
  "os_path_isdir w p \<longleftrightarrow> os_stat w p = Some Dir"

definition os_path_samefile :: "world \<Rightarrow> string \<Rightarrow> string \<Rightarrow> bool" where
  "os_path_samefile w f1 f2 \<longleftrightarrow> os_stat w f1 \<noteq> None \<and> os_stat w f2 \<noteq> None \<and> f1 = f2"

text \<open>The directory a new entry \<open>p\<close> would be created in: \<open>None\<close> when it is missing.\<close>

definition parent_of :: "world \<Rightarrow> string \<Rightarrow> node option" where
  "parent_of w p =
     (let h = os_path_dirname p in if h = [] then Some Dir else os_stat w h)"

definition os_mkdir :: "world \<Rightarrow> string \<Rightarrow> outcome" where
  "os_mkdir w p =
     (if p = [] then Inl (FileNotFoundError, w)
      else if nodes w p \<noteq> None then Inl (FileExistsError, w)
      else case parent_of w p of
             None \<Rightarrow> Inl (FileNotFoundError, w)
           | Some (File c t m) \<Rightarrow> Inl (NotADirectoryError, w)
           | Some Dir \<Rightarrow> Inr (w\<lparr>nodes := (nodes w)(p \<mapsto> Dir)\<rparr>))"

text \<open>\<^verbatim>\<open>open(p, 'rb').read()\<close>: a directory cannot be opened (Windows denies access).\<close>

definition read_bytes :: "world \<Rightarrow> string \<Rightarrow> error + string" where
  "read_bytes w p =
     (case os_stat w p of
        None \<Rightarrow> Inl FileNotFoundError
      | Some Dir \<Rightarrow> Inl PermissionError
      | Some (File c t m) \<Rightarrow> Inr c)"

text \<open>
  The owner's write bit \<^verbatim>\<open>0o200\<close>; on Windows a file without it is read-only.
\<close>

definition writable :: "nat \<Rightarrow> bool" where
  "writable m \<longleftrightarrow> (m div 128) mod 2 = 1"

definition default_perm :: nat where
  "default_perm = 438"

text \<open>
  \<^verbatim>\<open>open(p, 'wb')\<close> followed by the writes and the close: an existing file is replaced
  when it is writable and keeps its permission bits, a missing file is created in an
  existing directory; either way the file is stamped with the current time.
\<close>

definition write_bytes :: "world \<Rightarrow> string \<Rightarrow> string \<Rightarrow> outcome" where
  "write_bytes w p bytes =
     (case os_stat w p of
        Some Dir \<Rightarrow> Inl (PermissionError, w)
      | Some (File c t m) \<Rightarrow>
          if writable m
          then Inr (w\<lparr>nodes := (nodes w)(p \<mapsto> File bytes (clock w) m), clock := clock w + 1\<rparr>)
          else Inl (PermissionError, w)
      | None \<Rightarrow>
          if p = [] then Inl (FileNotFoundError, w)
          else (case parent_of w p of
                  Some Dir \<Rightarrow>
                    Inr (w\<lparr>nodes := (nodes w)(p \<mapsto> File bytes (clock w) default_perm),
                           clock := clock w + 1\<rparr>)
                | _ \<Rightarrow> Inl (FileNotFoundError, w)))"

section \<open>\<^verbatim>\<open>os.makedirs\<close> and \<^verbatim>\<open>shutil.copy2\<close>\<close>

text \<open>
  \<^verbatim>\<open>os.makedirs\<close> of CPython 3.11. The head and tail it works with: the name is split, and
  split once more when the tail is empty.
\<close>

definition makedirs_parts :: "string \<Rightarrow> string \<times> string" where
  "makedirs_parts name =
     (let (head, tail) = os_path_split name
      in if tail = [] then os_path_split head else (head, tail))"

text \<open>
  The final \<^verbatim>\<open>try: mkdir(name, mode) except OSError: ...\<close>: with \<^verbatim>\<open>exist_ok\<close> the error is
  swallowed when the name is a directory. Every error of the model is an \<^verbatim>\<open>OSError\<close>.
\<close>

definition mkdir_leaf :: "world \<Rightarrow> string \<Rightarrow> bool \<Rightarrow> outcome" where
  "mkdir_leaf w name exist_ok =
     (case os_mkdir w name of
        Inr w' \<Rightarrow> Inr w'
      | Inl (e, w') \<Rightarrow>
          if \<not> exist_ok \<or> \<not> os_path_isdir w' name then Inl (e, w') else Inr w')"

lemma splitdrive_append: "splitdrive p = (d, r) \<Longrightarrow> d @ r = p"
  unfolding splitdrive_def Let_def
  by (auto split: if_splits option.splits)

lemma os_path_split_eq:
  "splitdrive p = (d, r) \<Longrightarrow>
   os_path_split p =
     (d @ (if rev (dropWhile is_sep (rev (rev (dropWhile (\<lambda>c. \<not> is_sep c) (rev r))))) = []
           then rev (dropWhile (\<lambda>c. \<not> is_sep c) (rev r))
           else rev (dropWhile is_sep (rev (rev (dropWhile (\<lambda>c. \<not> is_sep c) (rev r)))))),
      rev (takeWhile (\<lambda>c. \<not> is_sep c) (rev r)))"
  unfolding os_path_split_def Let_def by simp

lemma os_path_split_length:
  assumes "os_path_split p = (h, t)"
  shows "length h + length t \<le> length p"
proof -
  obtain d r where dr: "splitdrive p = (d, r)"
    by (cases "splitdrive p")
  define hd0 where "hd0 = rev (dropWhile (\<lambda>c. \<not> is_sep c) (rev r))"
  define st where "st = rev (dropWhile is_sep (rev hd0))"
  have t: "t = rev (takeWhile (\<lambda>c. \<not> is_sep c) (rev r))"
    and h: "h = d @ (if st = [] then hd0 else st)"
    using assms unfolding os_path_split_eq [OF dr] hd0_def st_def by simp_all
  have "length (takeWhile (\<lambda>c. \<not> is_sep c) (rev r)) + length (dropWhile (\<lambda>c. \<not> is_sep c) (rev r)) = length (rev r)"
    by (metis length_append takeWhile_dropWhile_id)
  then have a: "length hd0 + length t = length r"
    unfolding hd0_def t by simp
  have b: "length st \<le> length hd0"
    unfolding st_def by (metis length_dropWhile_le length_rev)
  have c: "length d + length r = length p"
    using splitdrive_append [OF dr] by (metis length_append)
  show ?thesis
    using a b c by (simp add: h)
qed
lemma makedirs_parts_length:
  assumes "makedirs_parts name = (h, t)" and "t \<noteq> []"
  shows "length h < length name"
proof -
  obtain h0 t0 where s0: "os_path_split name = (h0, t0)"
    by (cases "os_path_split name")
  have l0: "length h0 + length t0 \<le> length name"
    by (rule os_path_split_length [OF s0])
  show ?thesis
  proof (cases "t0 = []")
    case True
    then have "os_path_split h0 = (h, t)"
      using assms(1) s0 by (simp add: makedirs_parts_def)
    then have "length h + length t \<le> length h0"
      by (rule os_path_split_length)
    with l0 assms(2) show ?thesis
      by (cases t) auto
  next
    case False
    then have "h = h0" "t = t0"
      using assms(1) s0 by (simp_all add: makedirs_parts_def)
    with l0 assms(2) show ?thesis
      by (cases t) auto
  qed
qed

function os_makedirs :: "world \<Rightarrow> string \<Rightarrow> bool \<Rightarrow> outcome" where
  "os_makedirs w name exist_ok =
     (if fst (makedirs_parts name) \<noteq> [] \<and> snd (makedirs_parts name) \<noteq> []
         \<and> \<not> os_path_exists w (fst (makedirs_parts name)) then
        (case os_makedirs w (fst (makedirs_parts name)) exist_ok of
           Inl (e, w1) \<Rightarrow>
             if e = FileExistsError then
               (if snd (makedirs_parts name) = curdir then Inr w1
                else mkdir_leaf w1 name exist_ok)
             else Inl (e, w1)
         | Inr w1 \<Rightarrow>
             if snd (makedirs_parts name) = curdir then Inr w1
             else mkdir_leaf w1 name exist_ok)
      else mkdir_leaf w name exist_ok)"
  by pat_completeness auto
termination
proof (relation "measure (\<lambda>(w, name, exist_ok). length name)")
  show "wf (measure (\<lambda>(w, name, exist_ok). length name))"
    by simp
next
  fix w :: world and name :: string and exist_ok :: bool
  assume "fst (makedirs_parts name) \<noteq> [] \<and> snd (makedirs_parts name) \<noteq> []
          \<and> \<not> os_path_exists w (fst (makedirs_parts name))"
  then have "length (fst (makedirs_parts name)) < length name"
    using makedirs_parts_length [of name "fst (makedirs_parts name)" "snd (makedirs_parts name)"]
    by simp
  then show "((w, fst (makedirs_parts name), exist_ok), (w, name, exist_ok))
             \<in> measure (\<lambda>(w, name, exist_ok). length name)"
    by simp
qed

declare os_makedirs.simps [simp del]

text \<open>
  \<^verbatim>\<open>shutil.copyfile\<close>: the same file is refused, then the source is read and the
  destination written.
\<close>

definition shutil_copyfile :: "world \<Rightarrow> string \<Rightarrow> string \<Rightarrow> outcome" where
  "shutil_copyfile w src dst =
     (if os_path_samefile w src dst then Inl (SameFileError, w)
      else case read_bytes w src of
             Inl e \<Rightarrow> Inl (e, w)
           | Inr bytes \<Rightarrow> write_bytes w dst bytes)"

text \<open>
  \<^verbatim>\<open>shutil.copystat\<close>: the modification time (\<^verbatim>\<open>os.utime\<close>) and the permission bits
  (\<^verbatim>\<open>os.chmod\<close>) of the source are given to the destination. Directories carry no metadata
  in the model, so nothing changes when either name is a directory.
\<close>

definition shutil_copystat :: "world \<Rightarrow> string \<Rightarrow> string \<Rightarrow> outcome" where
  "shutil_copystat w src dst =
     (case os_stat w src of
        None \<Rightarrow> Inl (FileNotFoundError, w)
      | Some st \<Rightarrow>
          (case os_stat w dst of
             None \<Rightarrow> Inl (FileNotFoundError, w)
           | Some Dir \<Rightarrow> Inr w
           | Some (File c' t' m') \<Rightarrow>
               (case st of
                  Dir \<Rightarrow> Inr w
                | File c t m \<Rightarrow> Inr (w\<lparr>nodes := (nodes w)(dst \<mapsto> File c' t m)\<rparr>))))"

definition shutil_copy2 :: "world \<Rightarrow> string \<Rightarrow> string \<Rightarrow> outcome" where
  "shutil_copy2 w src dst0 =
     (let dst = (if os_path_isdir w dst0 then os_path_join dst0 (os_path_basename src)
                 else dst0)
      in case shutil_copyfile w src dst of
           Inl e \<Rightarrow> Inl e
         | Inr w1 \<Rightarrow> shutil_copystat w1 src dst)"

section \<open>The script\<close>

definition workspace_path :: string where
  "workspace_path = ''e:'' @ sep # ''UnityProject'' @ sep # ''ARPG Stats System''"

definition essential_package_path :: string where
  "essential_package_path = ''c:'' @ sep # ''ARPG Stats System'' @ sep # ''Essential''"

definition bonus_package_path :: string where
  "bonus_package_path = ''c:'' @ sep # ''ARPG Stats System'' @ sep # ''Bonus''"

definition essential_files :: "string list" where
  "essential_files =
     [''Assets/Scripts/StatSystem/Stats/StatRegistry.cs'',
      ''Assets/Scripts/StatSystem/Stats/StatCollection.cs'',
      ''Assets/Scripts/StatSystem/Stats/StatModifier.cs'',
      ''Assets/Scripts/StatSystem/Stats/StatDefinition.cs'',
      ''Assets/Scripts/StatSystem/Stats/ConditionalStatDefinition.cs'',
      ''Assets/Scripts/StatSystem/Stats/StatValue.cs'',
      ''Assets/Scripts/StatSystem/Stats/TimedModifierDemo.cs'',
      ''Assets/StatRegistry.asset'',
      ''Assets/Scripts/StatSystem/Documentation/IntegrationGuide.md'',
      ''Assets/Scripts/StatSystem/Documentation/CoreStats.md'',
      ''Assets/Scripts/StatSystem/Documentation/ItemEquipExample.md'']"

definition bonus_files :: "string list" where
  "bonus_files =
     [''Assets/Scripts/StatSystem/Tests/ComprehensiveConditionalStatsTest.cs'',
      ''Assets/Scripts/StatSystem/Tests/AdvancedConditionalStatsTest.cs'',
      ''Assets/Scripts/StatSystem/Items/ItemSystemDemo.cs'',
      ''Assets/Scripts/StatSystem/Items/ItemFactory.cs'',
      ''Assets/Scripts/StatSystem/Editor/StatSystemSetupUtility.cs'',
      ''Assets/Scripts/StatSystem/Editor/StatRegistryEditor.cs'',
      ''Assets/Scripts/StatSystem/Documentation/ItemSystem.md'',
      ''Assets/Scripts/StatSystem/Documentation/ItemModifierDocumentation.md'']"

definition print_line :: "world \<Rightarrow> string \<Rightarrow> world" where
  "print_line w s = w\<lparr>stdout := stdout w @ [s]\<rparr>"

text \<open>The body of the \<^verbatim>\<open>for\<close> loop, for one entry of the list.\<close>

definition copy_entry :: "world \<Rightarrow> string \<Rightarrow> string \<Rightarrow> outcome" where
  "copy_entry w file destination =
     (let source_path = os_path_join workspace_path file;
          dest_path = os_path_join destination file
      in if os_path_exists w source_path then
           (case os_makedirs w (os_path_dirname dest_path) True of
              Inl e \<Rightarrow> Inl e
            | Inr w1 \<Rightarrow> shutil_copy2 w1 source_path dest_path)
         else Inr (print_line w (''File not found: '' @ source_path)))"

fun copy_files_with_structure :: "world \<Rightarrow> string list \<Rightarrow> string \<Rightarrow> outcome" where
  "copy_files_with_structure w [] destination = Inr w"
| "copy_files_with_structure w (file # file_list) destination =
     (case copy_entry w file destination of
        Inl e \<Rightarrow> Inl e
      | Inr w1 \<Rightarrow> copy_files_with_structure w1 file_list destination)"

text \<open>
  The string the last \<^verbatim>\<open>print\<close> writes: \<^verbatim>\<open>\A\<close> is no escape sequence of Python, so the
  backslash stays.
\<close>

definition completion_message :: string where
  "completion_message =
     ''Packaging complete. Essential and Bonus packages are ready at C:'' @ sep
       # ''ARPG Stats System.''"

text \<open>
  The module's top level, with the exit status of the process: an exception that reaches
  the top level ends the process with status 1, before any later statement runs.
\<close>

definition package_script :: "world \<Rightarrow> world \<times> nat" where
  "package_script w =
     (case copy_files_with_structure w essential_files essential_package_path of
        Inl (e, w1) \<Rightarrow> (w1, 1)
      | Inr w1 \<Rightarrow>
          (case copy_files_with_structure w1 bonus_files bonus_package_path of
             Inl (e, w2) \<Rightarrow> (w2, 1)
           | Inr w2 \<Rightarrow> (print_line w2 completion_message, 0)))"

section \<open>What the calls leave on the standard output\<close>

text \<open>The world a call leaves, whether it returns or raises.\<close>

definition world_of :: "outcome \<Rightarrow> world" where
  "world_of r = (case r of Inl (e, w) \<Rightarrow> w | Inr w \<Rightarrow> w)"

lemma world_of_simps [simp]: "world_of (Inl (e, w)) = w" "world_of (Inr w) = w"
  by (simp_all add: world_of_def)

lemma os_mkdir_stdout: "stdout (world_of (os_mkdir w p)) = stdout w"
  by (simp add: os_mkdir_def split: option.splits node.splits)

lemma mkdir_leaf_stdout: "stdout (world_of (mkdir_leaf w p b)) = stdout w"
  using os_mkdir_stdout [of w p]
  by (auto simp: mkdir_leaf_def split: sum.splits prod.splits)

lemma os_makedirs_stdout: "stdout (world_of (os_makedirs w name b)) = stdout w"
proof (induction w name b rule: os_makedirs.induct)
  case (1 w name exist_ok)
  show ?case
  proof (cases "fst (makedirs_parts name) \<noteq> [] \<and> snd (makedirs_parts name) \<noteq> []
         \<and> \<not> os_path_exists w (fst (makedirs_parts name))")
    case True
    note ih = 1 [OF True]
    show ?thesis
      using True ih
      by (subst os_makedirs.simps)
         (auto simp: mkdir_leaf_stdout split: sum.splits prod.splits)
  next
    case False
    then show ?thesis
      by (subst os_makedirs.simps) (auto simp: mkdir_leaf_stdout)
  qed
qed

lemma write_bytes_stdout: "stdout (world_of (write_bytes w p bs)) = stdout w"
  by (simp add: write_bytes_def split: option.splits node.splits)

lemma shutil_copyfile_stdout: "stdout (world_of (shutil_copyfile w s d)) = stdout w"
  by (simp add: shutil_copyfile_def write_bytes_stdout split: sum.splits)

lemma shutil_copystat_stdout: "stdout (world_of (shutil_copystat w s d)) = stdout w"
  by (simp add: shutil_copystat_def split: option.splits node.splits)

lemma shutil_copy2_stdout: "stdout (world_of (shutil_copy2 w s d)) = stdout w"
proof -
  define d' where "d' = (if os_path_isdir w d then os_path_join d (os_path_basename s) else d)"
  show ?thesis
  proof (cases "shutil_copyfile w s d'")
    case (Inl e)
    then show ?thesis
      using shutil_copyfile_stdout [of w s d']
      by (cases e) (simp add: shutil_copy2_def d'_def)
  next
    case (Inr w1)
    then show ?thesis
      using shutil_copyfile_stdout [of w s d'] shutil_copystat_stdout [of w1 s d']
      by (simp add: shutil_copy2_def d'_def)
  qed
qed

text \<open>The lines the loop prints all start with the same words.\<close>

definition not_found_line :: "string \<Rightarrow> bool" where
  "not_found_line l \<longleftrightarrow> prefix ''File not found: '' l"

lemma copy_entry_stdout:
  "stdout (world_of (copy_entry w f d)) = stdout w
   \<or> stdout (world_of (copy_entry w f d))
       = stdout w @ [''File not found: '' @ os_path_join workspace_path f]"
proof (cases "os_path_exists w (os_path_join workspace_path f)")
  case False
  then show ?thesis
    by (simp add: copy_entry_def print_line_def)
next
  case True
  show ?thesis
  proof (cases "os_makedirs w (os_path_dirname (os_path_join d f)) True")
    case (Inl e)
    then show ?thesis
      using True os_makedirs_stdout [of w "os_path_dirname (os_path_join d f)" True]
      by (cases e) (simp add: copy_entry_def)
  next
    case (Inr w1)
    then show ?thesis
      using True os_makedirs_stdout [of w "os_path_dirname (os_path_join d f)" True]
        shutil_copy2_stdout [of w1 "os_path_join workspace_path f" "os_path_join d f"]
      by (simp add: copy_entry_def)
  qed
qed

lemma copy_files_stdout:
  "\<exists>ls. stdout (world_of (copy_files_with_structure w m d)) = stdout w @ ls
        \<and> (\<forall>l\<in>set ls. not_found_line l)"
proof (induction m arbitrary: w)
  case Nil
  show ?case by simp
next
  case (Cons f m)
  from copy_entry_stdout [of w f d]
  obtain l0 where l0: "stdout (world_of (copy_entry w f d)) = stdout w @ l0"
    "\<forall>l\<in>set l0. not_found_line l"
    by (auto simp: not_found_line_def)
  show ?case
  proof (cases "copy_entry w f d")
    case (Inl e)
    then show ?thesis
      using l0 by (cases e) auto
  next
    case (Inr w1)
    from Cons.IH [of w1] obtain ls where
      "stdout (world_of (copy_files_with_structure w1 m d)) = stdout w1 @ ls"
      "\<forall>l\<in>set ls. not_found_line l"
      by blast
    then show ?thesis
      using l0 Inr
      by (intro exI [of _ "l0 @ ls"]) auto
  qed
qed

lemma copy_files_append:
  "copy_files_with_structure w (xs @ ys) d =
     (case copy_files_with_structure w xs d of
        Inl e \<Rightarrow> Inl e
      | Inr w1 \<Rightarrow> copy_files_with_structure w1 ys d)"
  by (induction xs arbitrary: w) (auto split: sum.splits)

lemma completion_not_found: "\<not> not_found_line completion_message"
  by (simp add: not_found_line_def completion_message_def)

section \<open>Joining a root with a relative entry\<close>

text \<open>
  A manifest entry is a relative path name: it is not empty, it does not start with a
  separator and it has no colon (so it has neither a drive nor a root).
\<close>

definition relative_entry :: "string \<Rightarrow> bool" where
  "relative_entry p \<longleftrightarrow> p \<noteq> [] \<and> \<not> is_sep (hd p) \<and> colon \<notin> set p"

text \<open>
  What \<^verbatim>\<open>os.path.join\<close> puts in front of a relative entry: the root, with a separator
  added where \<^verbatim>\<open>ntpath.join\<close> adds one.
\<close>

definition join_prefix :: "string \<Rightarrow> string" where
  "join_prefix root =
     (let (drive, path) = splitdrive root;
          path' = (if path \<noteq> [] \<and> \<not> is_sep (last path) then path @ [sep] else path)
      in if (path = [] \<or> \<not> is_sep (hd path)) \<and> drive \<noteq> [] \<and> last drive \<noteq> colon
         then drive @ [sep] @ path' else drive @ path')"

lemma sep_facts [simp]:
  "sep \<noteq> altsep" "altsep \<noteq> sep" "sep \<noteq> colon" "colon \<noteq> sep"
  "altsep \<noteq> colon" "colon \<noteq> altsep" "is_sep sep" "is_sep altsep" "\<not> is_sep colon"
  by (simp_all add: sep_def altsep_def colon_def is_sep_def)

lemma splitdrive_relative: "relative_entry p \<Longrightarrow> splitdrive p = ([], p)"
proof -
  assume r: "relative_entry p"
  then obtain a q where p: "p = a # q" and a: "\<not> is_sep a" and c: "colon \<notin> set p"
    by (cases p) (auto simp: relative_entry_def)
  have "a \<noteq> sep" "a \<noteq> altsep"
    using a by (auto simp: is_sep_def)
  then show ?thesis
    using c unfolding splitdrive_def Let_def p
    by (cases q) auto
qed

lemma join_relative: "relative_entry p \<Longrightarrow> os_path_join root p = join_prefix root @ p"
proof -
  assume r: "relative_entry p"
  obtain drive path where dp: "splitdrive root = (drive, path)"
    by (cases "splitdrive root")
  have p: "p \<noteq> []" "\<not> is_sep (hd p)"
    using r by (auto simp: relative_entry_def)
  show ?thesis
    unfolding os_path_join_def join_prefix_def splitdrive_relative [OF r] dp Let_def
    using p by (cases path) auto
qed

lemma join_prefix_workspace: "join_prefix workspace_path = workspace_path @ [sep]"
  unfolding join_prefix_def workspace_path_def splitdrive_def Let_def
  by (simp add: sep_def altsep_def colon_def is_sep_def)

lemma join_prefix_essential: "join_prefix essential_package_path = essential_package_path @ [sep]"
  unfolding join_prefix_def essential_package_path_def splitdrive_def Let_def
  by (simp add: sep_def altsep_def colon_def is_sep_def)


lemma essential_relative: "\<forall>f\<in>set essential_files. relative_entry f"
  by (simp add: essential_files_def relative_entry_def is_sep_def sep_def altsep_def colon_def)

lemma bonus_relative: "\<forall>f\<in>set bonus_files. relative_entry f"
  by (simp add: bonus_files_def relative_entry_def is_sep_def sep_def altsep_def colon_def)

section \<open>The claims\<close>

text \<open>A world with the given nodes and nothing printed yet, for concrete runs.\<close>

definition world_with :: "(string \<times> node) list \<Rightarrow> world" where
  "world_with fs = \<lparr>nodes = map_of fs, clock = 0, stdout = []\<rparr>"

lemma copy_entry_missing:
  "\<not> os_path_exists w (os_path_join workspace_path p) \<Longrightarrow>
   copy_entry w p d = Inr (print_line w (''File not found: '' @ os_path_join workspace_path p))"
  by (simp add: copy_entry_def)

text \<open>
  C2. When the loop reaches a relative entry \<open>p\<close> whose source \<^verbatim>\<open>source_root\p\<close> does not
  exist, it prints exactly the line \<^verbatim>\<open>File not found: source_root\p\<close>, leaves the file
  system as it is (neither the destination nor any directory for it is created) and goes
  on with the entries that follow. A source that is a directory exists: see C8.
\<close>

theorem c2_missing_source_reported:
  assumes "copy_files_with_structure w pre destination = Inr w1"
    and "relative_entry p"
    and "\<not> os_path_exists w1 (workspace_path @ sep # p)"
  shows "copy_files_with_structure w (pre @ p # rest) destination =
           copy_files_with_structure
             (print_line w1 (''File not found: '' @ workspace_path @ sep # p)) rest destination
         \<and> stdout (print_line w1 (''File not found: '' @ workspace_path @ sep # p))
             = stdout w1 @ [''File not found: '' @ workspace_path @ sep # p]
         \<and> nodes (print_line w1 (''File not found: '' @ workspace_path @ sep # p)) = nodes w1"
proof -
  have j: "os_path_join workspace_path p = workspace_path @ sep # p"
    using assms(2) by (simp add: join_relative join_prefix_workspace)
  then have "copy_entry w1 p destination
             = Inr (print_line w1 (''File not found: '' @ workspace_path @ sep # p))"
    using assms(3) copy_entry_missing [of w1 p destination] by simp
  then show ?thesis
    using assms(1) by (simp add: copy_files_append print_line_def)
qed

theorem c2_witness:
  "stdout (world_of (copy_files_with_structure (world_with [])
      [''Assets/Scripts/StatSystem/Items/ItemFactory.cs''] bonus_package_path))
   = [''File not found: '' @ workspace_path @ sep # ''Assets/Scripts/StatSystem/Items/ItemFactory.cs'']"
proof -
  have r: "relative_entry ''Assets/Scripts/StatSystem/Items/ItemFactory.cs''"
    by (simp add: relative_entry_def is_sep_def sep_def altsep_def colon_def)
  have m: "\<not> os_path_exists (world_with [])
             (workspace_path @ sep # ''Assets/Scripts/StatSystem/Items/ItemFactory.cs'')"
    by (simp add: os_path_exists_def os_stat_def world_with_def)
  have s: "copy_files_with_structure (world_with []) [] bonus_package_path = Inr (world_with [])"
    by simp
  show ?thesis
    using c2_missing_source_reported [OF s r m, of "[]"]
    by (simp add: print_line_def world_with_def)
qed

lemma copy_files_all_missing:
  "\<forall>f\<in>set m. \<not> os_path_exists w (os_path_join workspace_path f) \<Longrightarrow>
   copy_files_with_structure w m d
     = Inr (w\<lparr>stdout := stdout w @ map (\<lambda>f. ''File not found: '' @ os_path_join workspace_path f) m\<rparr>)"
proof (induction m arbitrary: w)
  case Nil
  show ?case by simp
next
  case (Cons f m)
  have e: "copy_entry w f d = Inr (print_line w (''File not found: '' @ os_path_join workspace_path f))"
    using Cons.prems by (simp add: copy_entry_missing)
  have "\<forall>g\<in>set m. \<not> os_path_exists (print_line w (''File not found: '' @ os_path_join workspace_path f))
          (os_path_join workspace_path g)"
    using Cons.prems by (auto simp: os_path_exists_def os_stat_def print_line_def)
  from Cons.IH [OF this] show ?case
    using e by (simp add: print_line_def)
qed

text \<open>
  C6. The script calls the copier twice, on the essential manifest and then, in the world
  the first call leaves, on the bonus manifest. When both calls return, the script ends
  with status 0 and the completion message is the last line printed; it is printed once:
  every other line of the run is a \<^verbatim>\<open>File not found\<close> line.
\<close>

theorem c6_driver_order_and_completion:
  assumes "copy_files_with_structure w essential_files essential_package_path = Inr w1"
    and "copy_files_with_structure w1 bonus_files bonus_package_path = Inr w2"
  shows "package_script w = (print_line w2 completion_message, 0)
         \<and> (\<exists>ls. stdout (fst (package_script w)) = stdout w @ ls @ [completion_message]
                \<and> completion_message \<notin> set ls)"
proof -
  have p: "package_script w = (print_line w2 completion_message, 0)"
    using assms by (simp add: package_script_def)
  from copy_files_stdout [of w essential_files essential_package_path] assms(1)
  obtain l1 where l1: "stdout w1 = stdout w @ l1" "\<forall>l\<in>set l1. not_found_line l"
    by auto
  from copy_files_stdout [of w1 bonus_files bonus_package_path] assms(2)
  obtain l2 where l2: "stdout w2 = stdout w1 @ l2" "\<forall>l\<in>set l2. not_found_line l"
    by auto
  have "stdout (fst (package_script w)) = stdout w @ (l1 @ l2) @ [completion_message]"
    using p l1(1) l2(1) by (simp add: print_line_def)
  moreover have "completion_message \<notin> set (l1 @ l2)"
    using l1(2) l2(2) completion_not_found by auto
  ultimately show ?thesis
    using p by blast
qed

theorem c6_witness:
  "snd (package_script (world_with [])) = 0
   \<and> last (stdout (fst (package_script (world_with [])))) = completion_message
   \<and> length (stdout (fst (package_script (world_with [])))) = 20"
proof -
  define w1 where "w1 = (world_with [])\<lparr>stdout := stdout (world_with [])
      @ map (\<lambda>f. ''File not found: '' @ os_path_join workspace_path f) essential_files\<rparr>"
  define w2 where "w2 = w1\<lparr>stdout := stdout w1
      @ map (\<lambda>f. ''File not found: '' @ os_path_join workspace_path f) bonus_files\<rparr>"
  have h1: "copy_files_with_structure (world_with []) essential_files essential_package_path = Inr w1"
    unfolding w1_def
    by (rule copy_files_all_missing) (simp add: os_path_exists_def os_stat_def world_with_def)
  have h2: "copy_files_with_structure w1 bonus_files bonus_package_path = Inr w2"
    unfolding w2_def
    by (rule copy_files_all_missing) (simp add: os_path_exists_def os_stat_def world_with_def w1_def)
  have "length (stdout w2) = 19"
    by (simp add: w2_def w1_def world_with_def essential_files_def bonus_files_def)
  then show ?thesis
    using c6_driver_order_and_completion [OF h1 h2]
    by (simp add: print_line_def)
qed

section \<open>What \<^verbatim>\<open>os.makedirs\<close> changes\<close>

text \<open>
  Between two worlds only directories were added, at names that did not exist and that are
  initial segments of \<open>name\<close>.
\<close>

definition dirs_added :: "string \<Rightarrow> world \<Rightarrow> world \<Rightarrow> bool" where
  "dirs_added name w w' \<longleftrightarrow>
     (\<forall>x. nodes w' x = nodes w x
          \<or> (nodes w x = None \<and> nodes w' x = Some Dir \<and> x \<noteq> [] \<and> prefix x name))"

lemma dirs_added_refl [simp]: "dirs_added name w w"
  by (simp add: dirs_added_def)

lemma dirs_added_trans:
  "dirs_added h w w1 \<Longrightarrow> dirs_added name w1 w2 \<Longrightarrow> prefix h name \<Longrightarrow> dirs_added name w w2"
  unfolding dirs_added_def
  by (metis prefix_order.order_trans)

lemma os_path_split_prefix: "prefix (fst (os_path_split p)) p"
proof -
  obtain d r where dr: "splitdrive p = (d, r)"
    by (cases "splitdrive p")
  define head0 where "head0 = rev (dropWhile (\<lambda>c. \<not> is_sep c) (rev r))"
  define st where "st = rev (dropWhile is_sep (rev head0))"
  have h: "fst (os_path_split p) = d @ (if st = [] then head0 else st)"
    unfolding os_path_split_eq [OF dr] head0_def st_def by simp
  have "rev r = takeWhile (\<lambda>c. \<not> is_sep c) (rev r) @ dropWhile (\<lambda>c. \<not> is_sep c) (rev r)"
    by simp
  then have "r = head0 @ rev (takeWhile (\<lambda>c. \<not> is_sep c) (rev r))"
    unfolding head0_def by (metis rev_append rev_rev_ident)
  then have a: "prefix head0 r"
    by (metis prefixI)
  have "rev head0 = takeWhile is_sep (rev head0) @ dropWhile is_sep (rev head0)"
    by simp
  then have "head0 = st @ rev (takeWhile is_sep (rev head0))"
    unfolding st_def by (metis rev_append rev_rev_ident)
  then have b: "prefix st head0"
    by (metis prefixI)
  have "prefix (if st = [] then head0 else st) r"
    using a b by (auto intro: prefix_order.order_trans)
  then show ?thesis
    using splitdrive_append [OF dr] h by auto
qed

lemma makedirs_parts_prefix: "prefix (fst (makedirs_parts name)) name"
proof (cases "snd (os_path_split name) = []")
  case True
  then have "fst (makedirs_parts name) = fst (os_path_split (fst (os_path_split name)))"
    by (simp add: makedirs_parts_def case_prod_unfold)
  then show ?thesis
    using os_path_split_prefix [of name] os_path_split_prefix [of "fst (os_path_split name)"]
    by (auto intro: prefix_order.order_trans)
next
  case False
  then have "fst (makedirs_parts name) = fst (os_path_split name)"
    by (simp add: makedirs_parts_def case_prod_unfold)
  then show ?thesis
    using os_path_split_prefix [of name] by simp
qed

lemma os_mkdir_added: "dirs_added p w (world_of (os_mkdir w p))"
  by (simp add: os_mkdir_def dirs_added_def split: option.splits node.splits)

lemma mkdir_leaf_added: "dirs_added p w (world_of (mkdir_leaf w p b))"
  using os_mkdir_added [of p w]
  by (auto simp: mkdir_leaf_def split: sum.splits prod.splits)

lemma os_makedirs_added: "dirs_added name w (world_of (os_makedirs w name b))"
proof (induction w name b rule: os_makedirs.induct)
  case (1 w name exist_ok)
  show ?case
  proof (cases "fst (makedirs_parts name) \<noteq> [] \<and> snd (makedirs_parts name) \<noteq> []
         \<and> \<not> os_path_exists w (fst (makedirs_parts name))")
    case False
    then show ?thesis
      by (subst os_makedirs.simps) (auto simp: mkdir_leaf_added)
  next
    case True
    note ih = 1 [OF True]
    define w1 where "w1 = world_of (os_makedirs w (fst (makedirs_parts name)) exist_ok)"
    have a: "dirs_added name w w1"
      using ih makedirs_parts_prefix [of name]
      unfolding w1_def dirs_added_def by (metis prefix_order.order_trans)
    have b: "dirs_added name w (world_of (mkdir_leaf w1 name exist_ok))"
      using a mkdir_leaf_added [of name w1 exist_ok]
      by (rule dirs_added_trans) simp
    show ?thesis
      using True a b
      by (subst os_makedirs.simps)
         (auto simp: w1_def split: sum.splits prod.splits)
  qed
qed

lemma os_makedirs_keeps:
  "nodes w x \<noteq> None \<Longrightarrow> nodes (world_of (os_makedirs w name b)) x = nodes w x"
  using os_makedirs_added [of name w b] by (auto simp: dirs_added_def)

lemma shutil_copy2_dir_source:
  assumes "os_path_isdir w src"
  shows "\<exists>e. shutil_copy2 w src dst = Inl (e, w)"
proof -
  define d' where "d' = (if os_path_isdir w dst then os_path_join dst (os_path_basename src) else dst)"
  have "\<exists>e. shutil_copyfile w src d' = Inl (e, w)"
    using assms by (auto simp: shutil_copyfile_def read_bytes_def os_path_isdir_def)
  then show ?thesis
    by (auto simp: shutil_copy2_def d'_def)
qed

text \<open>
  C8. When the loop reaches an entry whose source is a directory, \<^verbatim>\<open>os.path.exists\<close> is
  true: no \<^verbatim>\<open>File not found\<close> line is printed, \<^verbatim>\<open>os.makedirs\<close> runs for the destination
  and then \<^verbatim>\<open>shutil.copy2\<close> is called on the directory. The attempt ends in an exception
  (a directory cannot be opened for reading), with nothing printed for the entry.
\<close>

theorem c8_directory_source_passes_check:
  assumes "copy_files_with_structure w pre destination = Inr w1"
    and "os_path_isdir w1 (os_path_join workspace_path p)"
  shows "copy_files_with_structure w (pre @ p # rest) destination =
           (case os_makedirs w1 (os_path_dirname (os_path_join destination p)) True of
              Inl x \<Rightarrow> Inl x
            | Inr w2 \<Rightarrow>
                (case shutil_copy2 w2 (os_path_join workspace_path p) (os_path_join destination p) of
                   Inl x \<Rightarrow> Inl x
                 | Inr w3 \<Rightarrow> copy_files_with_structure w3 rest destination))
         \<and> (\<exists>e w'. copy_files_with_structure w (pre @ p # rest) destination = Inl (e, w')
                    \<and> stdout w' = stdout w1)"
proof -
  let ?src = "os_path_join workspace_path p"
  let ?dir = "os_path_dirname (os_path_join destination p)"
  have ex: "os_path_exists w1 ?src"
    using assms(2) by (simp add: os_path_isdir_def os_path_exists_def)
  have eq: "copy_files_with_structure w (pre @ p # rest) destination =
           (case os_makedirs w1 ?dir True of
              Inl x \<Rightarrow> Inl x
            | Inr w2 \<Rightarrow>
                (case shutil_copy2 w2 ?src (os_path_join destination p) of
                   Inl x \<Rightarrow> Inl x
                 | Inr w3 \<Rightarrow> copy_files_with_structure w3 rest destination))"
    using assms(1) ex
    by (simp add: copy_files_append copy_entry_def split: sum.splits)
  have "\<exists>e w'. copy_files_with_structure w (pre @ p # rest) destination = Inl (e, w')
                    \<and> stdout w' = stdout w1"
  proof (cases "os_makedirs w1 ?dir True")
    case (Inl x)
    then show ?thesis
      using eq os_makedirs_stdout [of w1 ?dir True]
      by (cases x) simp
  next
    case (Inr w2)
    have "os_path_isdir w2 ?src"
      using assms(2) os_makedirs_keeps [of w1 ?src ?dir True] Inr
      by (auto simp: os_path_isdir_def os_stat_def split: if_splits)
    from shutil_copy2_dir_source [OF this]
    obtain e where "shutil_copy2 w2 ?src (os_path_join destination p) = Inl (e, w2)"
      by blast
    then show ?thesis
      using eq Inr os_makedirs_stdout [of w1 ?dir True]
      by simp
  qed
  with eq show ?thesis
    by blast
qed

theorem c8_witness:
  "isl (copy_files_with_structure (world_with [(workspace_path @ sep # ''Assets'', Dir)])
          [''Assets''] essential_package_path)
   \<and> stdout (world_of (copy_files_with_structure
          (world_with [(workspace_path @ sep # ''Assets'', Dir)])
          [''Assets''] essential_package_path)) = []"
proof -
  let ?w = "world_with [(workspace_path @ sep # ''Assets'', Dir)]"
  have r: "relative_entry ''Assets''"
    by (simp add: relative_entry_def is_sep_def sep_def altsep_def colon_def)
  have s: "copy_files_with_structure ?w [] essential_package_path = Inr ?w"
    by simp
  have d: "os_path_isdir ?w (os_path_join workspace_path ''Assets'')"
    by (simp add: join_relative [OF r] join_prefix_workspace os_path_isdir_def os_stat_def
        world_with_def)
  from c8_directory_source_passes_check [OF s d, of "[]"]
  obtain e w' where
    "copy_files_with_structure ?w ([] @ [''Assets'']) essential_package_path = Inl (e, w')"
    "stdout w' = stdout ?w"
    by blast
  then show ?thesis
    by (simp add: world_with_def)
qed

text \<open>
  A world for a failing run: the first essential file is there, and a regular file sits
  where its destination directory has to be.
\<close>

definition c4_world :: world where
  "c4_world = world_with
     [(workspace_path @ sep # ''Assets/Scripts/StatSystem/Stats/StatRegistry.cs'',
         File ''registry'' 7 438),
      (essential_package_path @ sep # ''Assets/Scripts/StatSystem'', Dir),
      (essential_package_path @ sep # ''Assets/Scripts/StatSystem/Stats'',
         File ''in the way'' 3 438)]"

text \<open>
  C4. When \<^verbatim>\<open>os.makedirs\<close> or \<^verbatim>\<open>shutil.copy2\<close> raises for an entry, the copier raises the
  same exception in the world of that moment: the entries that follow are not processed.
  Nothing but \<^verbatim>\<open>File not found\<close> lines has been printed, so the completion message is
  not, and the script ends with status 1, whether the failing call is the one for the
  essential manifest or the one for the bonus manifest.
\<close>

theorem c4_exception_propagates:
  assumes "copy_files_with_structure w pre destination = Inr w1"
    and "os_path_exists w1 (os_path_join workspace_path p)"
    and "os_makedirs w1 (os_path_dirname (os_path_join destination p)) True = Inl (e, w2)
         \<or> (\<exists>w'. os_makedirs w1 (os_path_dirname (os_path_join destination p)) True = Inr w'
                  \<and> shutil_copy2 w' (os_path_join workspace_path p) (os_path_join destination p)
                      = Inl (e, w2))"
  shows "copy_files_with_structure w (pre @ p # rest) destination = Inl (e, w2)
         \<and> (\<exists>ls. stdout w2 = stdout w @ ls \<and> completion_message \<notin> set ls)
         \<and> (destination = essential_package_path \<and> pre @ p # rest = essential_files
              \<longrightarrow> package_script w = (w2, 1))
         \<and> (destination = bonus_package_path \<and> pre @ p # rest = bonus_files
              \<longrightarrow> (\<forall>w0. copy_files_with_structure w0 essential_files essential_package_path
                           = Inr w \<longrightarrow> package_script w0 = (w2, 1)))"
proof -
  have "copy_entry w1 p destination = Inl (e, w2)"
    using assms(2,3) by (auto simp: copy_entry_def)
  then have a: "copy_files_with_structure w (pre @ p # rest) destination = Inl (e, w2)"
    using assms(1) by (simp add: copy_files_append)
  from copy_files_stdout [of w "pre @ p # rest" destination] a
  obtain ls where ls: "stdout w2 = stdout w @ ls" "\<forall>l\<in>set ls. not_found_line l"
    by auto
  then have b: "\<exists>ls. stdout w2 = stdout w @ ls \<and> completion_message \<notin> set ls"
    using completion_not_found by blast
  show ?thesis
    using a b by (auto simp: package_script_def)
qed

theorem c4_witness:
  "package_script c4_world = (c4_world, 1) \<and> stdout c4_world = []"
proof -
  let ?p = "''Assets/Scripts/StatSystem/Stats/StatRegistry.cs''"
  have r: "relative_entry ?p"
    by (simp add: relative_entry_def is_sep_def sep_def altsep_def colon_def)
  have s: "copy_files_with_structure c4_world [] essential_package_path = Inr c4_world"
    by simp
  have x: "os_path_exists c4_world (os_path_join workspace_path ?p)"
    by (simp add: join_relative [OF r] join_prefix_workspace os_path_exists_def os_stat_def
        c4_world_def world_with_def)
  have dn: "os_path_dirname (os_path_join essential_package_path ?p)
            = essential_package_path @ sep # ''Assets/Scripts/StatSystem/Stats''"
  proof -
    have "os_path_join essential_package_path ?p = essential_package_path @ sep # ?p"
      by (simp add: join_relative [OF r] join_prefix_essential)
    then show ?thesis
      unfolding os_path_dirname_def os_path_split_def splitdrive_def essential_package_path_def
        Let_def
      by (simp add: sep_def altsep_def colon_def is_sep_def)
  qed
  have parts: "makedirs_parts (essential_package_path @ sep # ''Assets/Scripts/StatSystem/Stats'')
        = (essential_package_path @ sep # ''Assets/Scripts/StatSystem'', ''Stats'')"
    unfolding makedirs_parts_def os_path_split_def splitdrive_def essential_package_path_def Let_def
    by (simp add: sep_def altsep_def colon_def is_sep_def)
  have mk: "os_makedirs c4_world (os_path_dirname (os_path_join essential_package_path ?p)) True
            = Inl (FileExistsError, c4_world)"
    unfolding dn
    apply (subst os_makedirs.simps)
    apply (simp only: parts fst_conv snd_conv)
    apply (simp add: os_path_exists_def os_stat_def c4_world_def world_with_def mkdir_leaf_def
          os_mkdir_def os_path_isdir_def essential_package_path_def workspace_path_def sep_def)
    done
  have e: "[] @ ?p # tl essential_files = essential_files"
    by (simp add: essential_files_def)
  show ?thesis
    using c4_exception_propagates [OF s x disjI1 [OF mk], of "tl essential_files"] e
    by (simp add: c4_world_def world_with_def)
qed





section \<open>Where the copier writes\<close>

text \<open>
  Between two worlds every name whose node differs either starts with \<open>D\<close>, or is an
  initial segment of \<open>D\<close> where a directory was created at a name that did not exist.
\<close>

definition confined :: "string \<Rightarrow> world \<Rightarrow> world \<Rightarrow> bool" where
  "confined D w w' \<longleftrightarrow>
     (\<forall>x. nodes w' x = nodes w x \<or> prefix D x
          \<or> (prefix x D \<and> nodes w x = None \<and> nodes w' x = Some Dir))"

lemma confined_refl [simp]: "confined D w w"
  by (simp add: confined_def)


lemma confined_print [simp]: "confined D w (print_line w s)"
  by (simp add: confined_def print_line_def)















section \<open>Evaluating the calls on a given world\<close>









section \<open>The claims about the writes\<close>






section \<open>What a run copies\<close>

text \<open>No call removes a directory or puts a file in its place.\<close>

definition dirs_kept :: "world \<Rightarrow> world \<Rightarrow> bool" where
  "dirs_kept w w' \<longleftrightarrow> (\<forall>x. nodes w x = Some Dir \<longrightarrow> nodes w' x = Some Dir)"

lemma dirs_kept_refl [simp]: "dirs_kept w w"
  by (simp add: dirs_kept_def)
























section \<open>Running the copier again\<close>



























end
